theory Spec2Isabelle
  imports Main
begin

section \<open>Contact directory aggregator (src/lib/contacts.ts)\<close>

subsection \<open>Data model\<close>

text \<open>
  The \<open>Contact\<close> interface. The field \<open>id\<close> is called \<open>cid\<close> here, because \<open>id\<close> is
  the identity function of HOL. The two optional fields are options.
\<close>

record Contact =
  cid :: string
  name :: string
  email :: string
  photoUrl :: "string option"
  lastContacted :: "int option"

text \<open>The cache envelope \<open>ContactsCache\<close> and the constant \<open>CACHE_DURATION\<close> (milliseconds).\<close>

record ContactsCache =
  data :: "Contact list"
  timestamp :: int

definition CACHE_DURATION :: int where
  "CACHE_DURATION = 24 * 60 * 60 * 1000"

subsection \<open>The insertion-ordered \<open>Map<string, Contact>\<close> of JavaScript\<close>

text \<open>
  A JavaScript \<open>Map\<close> iterates in insertion order, and \<open>set\<close> on a key that is present
  replaces the value where the key already stands. The model is an association list
  whose order is the iteration order.
\<close>

type_synonym 'v jsmap = "(string \<times> 'v) list"

definition map_has :: "'v jsmap \<Rightarrow> string \<Rightarrow> bool" where
  "map_has m k = (k \<in> set (map fst m))"

primrec map_set :: "'v jsmap \<Rightarrow> string \<Rightarrow> 'v \<Rightarrow> 'v jsmap" where
  "map_set [] k v = [(k, v)]"
| "map_set (p # ps) k v = (if fst p = k then (k, v) # ps else p # map_set ps k v)"

definition map_values :: "'v jsmap \<Rightarrow> 'v list" where
  "map_values m = map snd m"

subsection \<open>The merge of \<open>fetchAllContacts\<close>\<close>

text \<open>
  \<open>connections.forEach(c => map.set(c.email, c))\<close>: every contact of the first source is
  written, a later one over an earlier one with the same email.
\<close>

definition set_all :: "Contact list \<Rightarrow> Contact jsmap \<Rightarrow> Contact jsmap" where
  "set_all cs m = fold (\<lambda>c m. map_set m (email c) c) cs m"

text \<open>
  \<open>xs.forEach(c => { if (!map.has(c.email)) map.set(c.email, c) })\<close>, the loop of the
  second and of the third source.
\<close>

definition set_absent :: "Contact list \<Rightarrow> Contact jsmap \<Rightarrow> Contact jsmap" where
  "set_absent cs m = fold (\<lambda>c m. if \<not> map_has m (email c) then map_set m (email c) c else m) cs m"

text \<open>Lines 55 to 75 of \<open>fetchAllContacts\<close>: the three loops and \<open>Array.from(map.values())\<close>.\<close>

definition mergeContacts :: "Contact list \<Rightarrow> Contact list \<Rightarrow> Contact list \<Rightarrow> Contact list" where
  "mergeContacts conns others recents =
     map_values (set_absent recents (set_absent others (set_all conns [])))"

text \<open>The entry of a contact list for an email: the first one that carries it.\<close>

definition entry_for :: "string \<Rightarrow> Contact list \<Rightarrow> Contact option" where
  "entry_for e cs = find (\<lambda>c. email c = e) cs"

text \<open>The keys of a map of contacts are the emails of its values.\<close>

definition keyed_by_email :: "Contact jsmap \<Rightarrow> bool" where
  "keyed_by_email m = list_all (\<lambda>p. fst p = email (snd p)) m"

subsection \<open>Values of JavaScript: falsy strings, \<open>||\<close>, optional chaining\<close>

text \<open>
  A property that may be missing is an option. A string is falsy when it is missing or
  empty; \<open>a || b\<close> is \<open>a\<close> when \<open>a\<close> is truthy and \<open>b\<close> otherwise. A flag such as
  \<open>att.self\<close> is truthy only when it is present and true.
\<close>

definition truthy :: "string option \<Rightarrow> bool" where
  "truthy v = (case v of None \<Rightarrow> False | Some s \<Rightarrow> s \<noteq> [])"

definition js_or :: "string option \<Rightarrow> string option \<Rightarrow> string option" where
  "js_or a b = (if truthy a then a else b)"

definition or_string :: "string option \<Rightarrow> string \<Rightarrow> string" where
  "or_string a d = (case a of None \<Rightarrow> d | Some s \<Rightarrow> if s \<noteq> [] then s else d)"

definition flag :: "bool option \<Rightarrow> bool" where
  "flag b = (case b of None \<Rightarrow> False | Some v \<Rightarrow> v)"

text \<open>\<open>xs?.[0]\<close>: nothing when the array is missing or empty.\<close>

definition first_of :: "'a list option \<Rightarrow> 'a option" where
  "first_of xs = (case xs of None \<Rightarrow> None | Some [] \<Rightarrow> None | Some (x # _) \<Rightarrow> Some x)"

subsection \<open>The responses of the People API and of the Calendar API\<close>

text \<open>
  The shapes the code reads. The field \<open>value\<close> of an email address is called
  \<open>email_value\<close>, and the fields of an attendee carry the prefix \<open>att_\<close>.
\<close>

record name_entry =
  displayName :: "string option"

record email_entry =
  email_value :: "string option"

record photo_entry =
  url :: "string option"

record Person =
  resourceName :: "string option"
  names :: "name_entry list option"
  emailAddresses :: "email_entry list option"
  photos :: "photo_entry list option"

record people_body =
  connections :: "Person list option"
  otherContacts :: "Person list option"

record search_result =
  person :: "Person option"

record search_body =
  results :: "search_result list option"

record attendee =
  att_email :: "string option"
  att_displayName :: "string option"
  att_self :: "bool option"
  att_resource :: "bool option"

record calendar_event =
  attendees :: "attendee list option"

record events_body =
  items :: "calendar_event list option"

text \<open>
  What a callee can throw, and the result of \<open>fetch\<close>: it rejects, or it gives a response
  with the flag \<open>ok\<close> whose \<open>json()\<close> rejects or gives the parsed body.
\<close>

datatype error = AuthError | StorageError | NetworkError | SyntaxError | TypeError

record 'a response =
  ok :: bool
  json :: "error + 'a"

subsection \<open>The environment and the state\<close>

text \<open>
  The state is the cache envelope stored under \<open>CACHE_KEY\<close> and the log of the calls made
  to the outside. The environment fixes what the outside answers during one call:
  whether the storage rejects, the outcome of \<open>getAuthToken(false)\<close>, the outcome of each
  fetch, and the two readings of \<open>Date.now()\<close> (line 23 and line 36). The time that
  \<open>fetchRecentAttendees\<close> puts into its URL does not reach the result and is left out.
\<close>

datatype url = ConnectionsUrl | OtherContactsUrl | EventsUrl | SearchUrl string

datatype io = StorageGet | StorageSet | AuthRequest | Fetch url string

record world =
  cache :: "ContactsCache option"
  log :: "io list"

record env =
  storage_get_error :: "error option"
  storage_set_error :: "error option"
  auth :: "error + string"
  people_fetch :: "url \<Rightarrow> error + people_body response"
  events_fetch :: "error + events_body response"
  search_fetch :: "string \<Rightarrow> error + search_body response"
  now_check :: int
  now_store :: int

definition is_network :: "io \<Rightarrow> bool" where
  "is_network a = (case a of Fetch u t \<Rightarrow> True | _ \<Rightarrow> False)"

definition logged :: "io \<Rightarrow> world \<Rightarrow> world" where
  "logged a w = w\<lparr>log := log w @ [a]\<rparr>"

definition storage_get :: "env \<Rightarrow> world \<Rightarrow> (error + ContactsCache option) \<times> world" where
  "storage_get env w =
     (case storage_get_error env of
        Some e \<Rightarrow> (Inl e, logged StorageGet w)
      | None \<Rightarrow> (Inr (cache w), logged StorageGet w))"

definition storage_set :: "env \<Rightarrow> ContactsCache \<Rightarrow> world \<Rightarrow> (error + unit) \<times> world" where
  "storage_set env c w =
     (case storage_set_error env of
        Some e \<Rightarrow> (Inl e, logged StorageSet w)
      | None \<Rightarrow> (Inr (), logged StorageSet (w\<lparr>cache := Some c\<rparr>)))"

definition getAuthToken :: "env \<Rightarrow> world \<Rightarrow> (error + string) \<times> world" where
  "getAuthToken env w = (auth env, logged AuthRequest w)"

text \<open>\<open>try { ... } catch (e) { return [] }\<close>.\<close>

definition catch_empty :: "error + Contact list \<Rightarrow> Contact list" where
  "catch_empty r = (case r of Inl e \<Rightarrow> [] | Inr cs \<Rightarrow> cs)"

subsection \<open>\<open>fetchPeople\<close> and the mapping of a person\<close>

definition first_displayName :: "Person \<Rightarrow> string option" where
  "first_displayName item = Option.bind (first_of (names item)) displayName"

definition first_email :: "Person \<Rightarrow> string option" where
  "first_email item = Option.bind (first_of (emailAddresses item)) email_value"

definition first_photo :: "Person \<Rightarrow> string option" where
  "first_photo item = Option.bind (first_of (photos item)) url"

text \<open>
  The function given to \<open>map\<close> in \<open>fetchPeople\<close> (lines 182 to 195) and, with the same
  text, in \<open>searchContacts\<close> (lines 95 to 107); \<open>None\<close> is its \<open>null\<close>.
\<close>

definition personToContact :: "Person \<Rightarrow> Contact option" where
  "personToContact item =
     (let nm = or_string (js_or (first_displayName item) (first_email item)) ''Unknown'';
          em = first_email item;
          ph = first_photo item
      in case em of
           None \<Rightarrow> None
         | Some e \<Rightarrow>
             if e = [] then None
             else Some \<lparr>cid = or_string (resourceName item) e, name = nm, email = e,
                        photoUrl = ph, lastContacted = None\<rparr>)"

text \<open>\<open>.filter(c => c !== null)\<close>.\<close>

definition filter_null :: "Contact option list \<Rightarrow> Contact list" where
  "filter_null cs = List.map_filter (\<lambda>c. c) cs"

text \<open>The body of the \<open>try\<close> of \<open>fetchPeople\<close>, from the outcome of its fetch.\<close>

definition fetchPeople_try :: "error + people_body response \<Rightarrow> bool \<Rightarrow> error + Contact list" where
  "fetchPeople_try res isOther =
     (case res of
        Inl e \<Rightarrow> Inl e
      | Inr r \<Rightarrow>
          if \<not> ok r then Inr []
          else (case json r of
                  Inl e \<Rightarrow> Inl e
                | Inr d \<Rightarrow>
                    (case (if isOther then otherContacts d else connections d) of
                       None \<Rightarrow> Inr []
                     | Some list \<Rightarrow> Inr (filter_null (map personToContact list)))))"

definition fetchPeople :: "env \<Rightarrow> url \<Rightarrow> string \<Rightarrow> bool \<Rightarrow> world \<Rightarrow> Contact list \<times> world" where
  "fetchPeople env u token isOther w =
     (catch_empty (fetchPeople_try (people_fetch env u) isOther), logged (Fetch u token) w)"

definition fetchConnections :: "env \<Rightarrow> string \<Rightarrow> world \<Rightarrow> Contact list \<times> world" where
  "fetchConnections env token w = fetchPeople env ConnectionsUrl token False w"

definition fetchOtherContacts :: "env \<Rightarrow> string \<Rightarrow> world \<Rightarrow> Contact list \<times> world" where
  "fetchOtherContacts env token w = fetchPeople env OtherContactsUrl token True w"

subsection \<open>\<open>fetchRecentAttendees\<close>\<close>

text \<open>\<open>att.email.split('@')[0]\<close>: the text before the first \<open>@\<close>.\<close>

definition before_at :: "string \<Rightarrow> string" where
  "before_at e = takeWhile (\<lambda>c. c \<noteq> CHR ''@'') e"

text \<open>The inner loop body (lines 146 to 157) and the outer one (lines 144 to 159).\<close>

definition add_attendee :: "attendee \<Rightarrow> Contact jsmap \<Rightarrow> Contact jsmap" where
  "add_attendee att contactsMap =
     (case att_email att of
        None \<Rightarrow> contactsMap
      | Some e \<Rightarrow>
          if e \<noteq> [] \<and> \<not> flag (att_self att) \<and> \<not> flag (att_resource att) then
            (if \<not> map_has contactsMap e then
               map_set contactsMap e
                 \<lparr>cid = e, name = or_string (att_displayName att) (before_at e), email = e,
                  photoUrl = None, lastContacted = None\<rparr>
             else contactsMap)
          else contactsMap)"

definition add_event :: "calendar_event \<Rightarrow> Contact jsmap \<Rightarrow> Contact jsmap" where
  "add_event ev contactsMap =
     (case attendees ev of
        None \<Rightarrow> contactsMap
      | Some atts \<Rightarrow> fold add_attendee atts contactsMap)"

definition fetchRecentAttendees_try :: "error + events_body response \<Rightarrow> error + Contact list" where
  "fetchRecentAttendees_try res =
     (case res of
        Inl e \<Rightarrow> Inl e
      | Inr r \<Rightarrow>
          if \<not> ok r then Inr []
          else (case json r of
                  Inl e \<Rightarrow> Inl e
                | Inr d \<Rightarrow>
                    (case items d of
                       None \<Rightarrow> Inr []
                     | Some its \<Rightarrow> Inr (map_values (fold add_event its [])))))"

definition fetchRecentAttendees :: "env \<Rightarrow> string \<Rightarrow> world \<Rightarrow> Contact list \<times> world" where
  "fetchRecentAttendees env token w =
     (catch_empty (fetchRecentAttendees_try (events_fetch env)), logged (Fetch EventsUrl token) w)"

subsection \<open>\<open>fetchAllContacts\<close> and \<open>getContacts\<close>\<close>

text \<open>
  \<open>Promise.all\<close> over the three calls: each issues its fetch when it is called, in the
  order written, and none of them rejects.
\<close>

definition fetchAllContacts :: "env \<Rightarrow> string \<Rightarrow> world \<Rightarrow> Contact list \<times> world" where
  "fetchAllContacts env token w =
     (case fetchConnections env token w of
        (conns, w1) \<Rightarrow>
          (case fetchOtherContacts env token w1 of
             (others, w2) \<Rightarrow>
               (case fetchRecentAttendees env token w2 of
                  (recents, w3) \<Rightarrow> (mergeContacts conns others recents, w3))))"

text \<open>The body of the \<open>try\<close> of \<open>getContacts\<close> (lines 30 to 40).\<close>

definition getContacts_try :: "env \<Rightarrow> world \<Rightarrow> (error + Contact list) \<times> world" where
  "getContacts_try env w =
     (case getAuthToken env w of
        (Inl e, w1) \<Rightarrow> (Inl e, w1)
      | (Inr token, w1) \<Rightarrow>
          (case fetchAllContacts env token w1 of
             (contacts, w2) \<Rightarrow>
               (case storage_set env \<lparr>data = contacts, timestamp = now_store env\<rparr> w2 of
                  (Inl e, w3) \<Rightarrow> (Inl e, w3)
                | (Inr u, w3) \<Rightarrow> (Inr contacts, w3))))"

text \<open>The \<open>try\<close> with its \<open>catch\<close> (lines 29 to 44).\<close>

definition getContacts_refresh :: "env \<Rightarrow> world \<Rightarrow> (error + Contact list) \<times> world" where
  "getContacts_refresh env w =
     (case getContacts_try env w of
        (Inl e, w') \<Rightarrow> (Inr [], w')
      | (Inr cs, w') \<Rightarrow> (Inr cs, w'))"

text \<open>
  \<open>getContacts\<close>. The read of the storage (lines 20 to 27) stands before the \<open>try\<close>, so its
  rejection is the rejection of \<open>getContacts\<close>.
\<close>

definition getContacts :: "env \<Rightarrow> bool \<Rightarrow> world \<Rightarrow> (error + Contact list) \<times> world" where
  "getContacts env forceRefresh w =
     (if \<not> forceRefresh then
        (case storage_get env w of
           (Inl e, w1) \<Rightarrow> (Inl e, w1)
         | (Inr cachedData, w1) \<Rightarrow>
             (case cachedData of
                None \<Rightarrow> getContacts_refresh env w1
              | Some c \<Rightarrow>
                  if now_check env - timestamp c < CACHE_DURATION then (Inr (data c), w1)
                  else getContacts_refresh env w1))
      else getContacts_refresh env w)"

subsection \<open>\<open>searchContacts\<close>\<close>

text \<open>
  \<open>data.results.map(...)\<close>: \<open>item.names\<close> throws a \<open>TypeError\<close> at a result without
  \<open>person\<close>, which ends the whole \<open>map\<close>.
\<close>

fun map_results :: "search_result list \<Rightarrow> error + Contact option list" where
  "map_results [] = Inr []"
| "map_results (r # rs) =
     (case person r of
        None \<Rightarrow> Inl TypeError
      | Some item \<Rightarrow>
          (case map_results rs of
             Inl e \<Rightarrow> Inl e
           | Inr cs \<Rightarrow> Inr (personToContact item # cs)))"

definition searchContacts_try :: "env \<Rightarrow> string \<Rightarrow> world \<Rightarrow> (error + Contact list) \<times> world" where
  "searchContacts_try env query w =
     (case getAuthToken env w of
        (Inl e, w1) \<Rightarrow> (Inl e, w1)
      | (Inr token, w1) \<Rightarrow>
          (let w2 = logged (Fetch (SearchUrl query) token) w1 in
           case search_fetch env query of
             Inl e \<Rightarrow> (Inl e, w2)
           | Inr res \<Rightarrow>
               if \<not> ok res then (Inr [], w2)
               else (case json res of
                       Inl e \<Rightarrow> (Inl e, w2)
                     | Inr d \<Rightarrow>
                         (case results d of
                            None \<Rightarrow> (Inr [], w2)
                          | Some rs \<Rightarrow>
                              (case map_results rs of
                                 Inl e \<Rightarrow> (Inl e, w2)
                               | Inr cs \<Rightarrow> (Inr (filter_null cs), w2))))))"

definition searchContacts :: "env \<Rightarrow> string \<Rightarrow> world \<Rightarrow> (error + Contact list) \<times> world" where
  "searchContacts env query w =
     (if query = [] \<or> length query < 2 then (Inr [], w)
      else (case searchContacts_try env query w of
              (Inl e, w') \<Rightarrow> (Inr [], w')
            | (Inr cs, w') \<Rightarrow> (Inr cs, w')))"

subsection \<open>The merge of search results in \<open>handleInput\<close> (CalendarAssistant)\<close>

text \<open>
  The function given to \<open>setContacts\<close>: a copy of the held list, to which each result is
  pushed unless the copy already has its email. It is called only for a non-empty result
  list; otherwise the held list stays.
\<close>

definition push_new :: "Contact list \<Rightarrow> Contact \<Rightarrow> Contact list" where
  "push_new combined r =
     (if \<not> list_ex (\<lambda>c. email c = email r) combined then combined @ [r] else combined)"

definition mergeSearchResults :: "Contact list \<Rightarrow> Contact list \<Rightarrow> Contact list" where
  "mergeSearchResults prev rs = (if length rs > 0 then foldl push_new prev rs else prev)"

subsection \<open>What each source contributes, and the paths of \<open>getContacts\<close>\<close>

text \<open>
  The list that each of the three source functions returns, as a function of the outcome
  of its own fetch alone, and the merge of the three.
\<close>

definition connections_result :: "env \<Rightarrow> Contact list" where
  "connections_result env = catch_empty (fetchPeople_try (people_fetch env ConnectionsUrl) False)"

definition otherContacts_result :: "env \<Rightarrow> Contact list" where
  "otherContacts_result env = catch_empty (fetchPeople_try (people_fetch env OtherContactsUrl) True)"

definition recentAttendees_result :: "env \<Rightarrow> Contact list" where
  "recentAttendees_result env = catch_empty (fetchRecentAttendees_try (events_fetch env))"

definition merged_result :: "env \<Rightarrow> Contact list" where
  "merged_result env =
     mergeContacts (connections_result env) (otherContacts_result env) (recentAttendees_result env)"

text \<open>
  \<open>getContacts\<close> goes on to the refresh when it is forced, or when the storage was read
  and holds no envelope or one whose age is at least \<open>CACHE_DURATION\<close>. Before the
  refresh the storage has been read unless the refresh was forced.
\<close>

definition takes_network_path :: "env \<Rightarrow> bool \<Rightarrow> world \<Rightarrow> bool" where
  "takes_network_path env forceRefresh w =
     (forceRefresh \<or>
      (storage_get_error env = None \<and>
       (case cache w of None \<Rightarrow> True | Some c \<Rightarrow> CACHE_DURATION \<le> now_check env - timestamp c)))"

definition after_read :: "bool \<Rightarrow> world \<Rightarrow> world" where
  "after_read forceRefresh w = (if forceRefresh then w else logged StorageGet w)"

text \<open>
  The ways a source fetch fails: the fetch or \<open>json()\<close> throws, the status is not a
  success, or the expected list field is missing.
\<close>

definition people_failed :: "bool \<Rightarrow> error + people_body response \<Rightarrow> bool" where
  "people_failed isOther res =
     (case res of
        Inl e \<Rightarrow> True
      | Inr r \<Rightarrow>
          \<not> ok r \<or>
          (case json r of
             Inl e \<Rightarrow> True
           | Inr d \<Rightarrow> (if isOther then otherContacts d else connections d) = None))"

definition events_failed :: "error + events_body response \<Rightarrow> bool" where
  "events_failed res =
     (case res of
        Inl e \<Rightarrow> True
      | Inr r \<Rightarrow> \<not> ok r \<or> (case json r of Inl e \<Rightarrow> True | Inr d \<Rightarrow> items d = None))"

subsection \<open>The rules the sources are compared with\<close>

text \<open>
  The shared mapping rule in the words of the specification, on the display name, the
  first email string, the first photo URL and the resource identifier of an entry, where
  a string is available when it is present and not empty:
  the name is the display name, else the first email string, else \<open>Unknown\<close>; the email
  is the first email string, and the entry is discarded without one; the photo is the
  first photo URL; the id is the resource identifier, else the email.
\<close>

definition available :: "string option \<Rightarrow> bool" where
  "available v = (v \<noteq> None \<and> v \<noteq> Some [])"

definition shared_rule ::
  "string option \<Rightarrow> string option \<Rightarrow> string option \<Rightarrow> string option \<Rightarrow> Contact option" where
  "shared_rule dn em ph rid =
     (if \<not> available em then None
      else Some
        \<lparr>cid = (if available rid then the rid else the em),
         name = (if available dn then the dn
                 else if available em then the em else ''Unknown''),
         email = the em,
         photoUrl = ph,
         lastContacted = None\<rparr>)"

definition person_rule :: "Person \<Rightarrow> Contact option" where
  "person_rule item =
     shared_rule (first_displayName item) (first_email item) (first_photo item)
       (resourceName item)"

text \<open>
  An attendee is eligible with the email \<open>e\<close> when \<open>e\<close> is its email, not empty, and
  neither \<open>self\<close> nor \<open>resource\<close> is true. The contact made of an eligible attendee has the
  email as id, the display name or else the text of the email before the first \<open>@\<close> as
  name, and no photo.
\<close>

definition eligible :: "attendee \<Rightarrow> string \<Rightarrow> bool" where
  "eligible a e =
     (att_email a = Some e \<and> e \<noteq> [] \<and> att_self a \<noteq> Some True \<and> att_resource a \<noteq> Some True)"

definition attendee_rule :: "attendee \<Rightarrow> string \<Rightarrow> Contact" where
  "attendee_rule a e =
     \<lparr>cid = e,
      name = (case att_displayName a of
                None \<Rightarrow> before_at e
              | Some d \<Rightarrow> if d = [] then before_at e else d),
      email = e, photoUrl = None, lastContacted = None\<rparr>"

definition from_attendee :: "calendar_event list \<Rightarrow> Contact \<Rightarrow> bool" where
  "from_attendee its c =
     (\<exists>ev\<in>set its. \<exists>atts. attendees ev = Some atts \<and>
        (\<exists>a\<in>set atts. \<exists>e. eligible a e \<and> c = attendee_rule a e))"

text \<open>
  The merge of search results in the words of the specification: the held list, followed
  by the results whose email is not in the held list.
\<close>

definition additive_merge :: "Contact list \<Rightarrow> Contact list \<Rightarrow> Contact list" where
  "additive_merge prev rs = prev @ filter (\<lambda>r. email r \<notin> set (map email prev)) rs"

text \<open>
  The results that are new with respect to the emails seen so far, each email taken once,
  at its first result.
\<close>

fun first_new :: "string list \<Rightarrow> Contact list \<Rightarrow> Contact list" where
  "first_new seen [] = []"
| "first_new seen (r # rs) =
     (if email r \<in> set seen then first_new seen rs else r # first_new (seen @ [email r]) rs)"

subsection \<open>Sample data\<close>

definition alice_search :: Contact where
  "alice_search = \<lparr>cid = ''otherContacts/c7'', name = ''Alice'', email = ''alice@x.com'',
     photoUrl = None, lastContacted = None\<rparr>"

definition alice_search_twin :: Contact where
  "alice_search_twin = \<lparr>cid = ''otherContacts/c8'', name = ''Alice (work)'',
     email = ''alice@x.com'', photoUrl = None, lastContacted = None\<rparr>"

definition bob_held :: Contact where
  "bob_held = \<lparr>cid = ''bob@x.com'', name = ''bob'', email = ''bob@x.com'',
     photoUrl = None, lastContacted = None\<rparr>"

definition alice_connection :: Contact where
  "alice_connection = \<lparr>cid = ''people/c1'', name = ''Alice A'', email = ''a@x.com'',
     photoUrl = Some ''https://photos.example/a.png'', lastContacted = None\<rparr>"

definition alice_other :: Contact where
  "alice_other = \<lparr>cid = ''otherContacts/c2'', name = ''Alice B'', email = ''a@x.com'',
     photoUrl = None, lastContacted = None\<rparr>"

definition person_alice :: Person where
  "person_alice = \<lparr>resourceName = Some ''people/c1'',
     names = Some [\<lparr>displayName = Some ''Alice A''\<rparr>],
     emailAddresses = Some [\<lparr>email_value = Some ''a@x.com''\<rparr>],
     photos = Some [\<lparr>url = Some ''https://photos.example/a.png''\<rparr>]\<rparr>"

definition person_alice_other :: Person where
  "person_alice_other = \<lparr>resourceName = Some ''otherContacts/c2'',
     names = Some [\<lparr>displayName = Some ''Alice B''\<rparr>],
     emailAddresses = Some [\<lparr>email_value = Some ''a@x.com''\<rparr>],
     photos = None\<rparr>"

definition person_nameless :: Person where
  "person_nameless = \<lparr>resourceName = None, names = None,
     emailAddresses = Some [\<lparr>email_value = Some ''carol@x.com''\<rparr>], photos = None\<rparr>"

definition person_no_email :: Person where
  "person_no_email = \<lparr>resourceName = Some ''people/c9'',
     names = Some [\<lparr>displayName = Some ''Dave''\<rparr>], emailAddresses = None, photos = None\<rparr>"

definition carol :: Contact where
  "carol = \<lparr>cid = ''carol@x.com'', name = ''carol@x.com'', email = ''carol@x.com'',
     photoUrl = None, lastContacted = None\<rparr>"

definition att_bob :: attendee where
  "att_bob = \<lparr>att_email = Some ''bob@x.com'', att_displayName = None, att_self = None,
     att_resource = None\<rparr>"

definition att_me :: attendee where
  "att_me = \<lparr>att_email = Some ''me@x.com'', att_displayName = Some ''Me'',
     att_self = Some True, att_resource = None\<rparr>"

definition att_room :: attendee where
  "att_room = \<lparr>att_email = Some ''room@x.com'', att_displayName = Some ''Room 1'',
     att_self = None, att_resource = Some True\<rparr>"

definition att_anonymous :: attendee where
  "att_anonymous = \<lparr>att_email = None, att_displayName = Some ''Guest'', att_self = None,
     att_resource = None\<rparr>"

definition sample_events :: "calendar_event list" where
  "sample_events = [\<lparr>attendees = Some [att_me, att_bob, att_room, att_anonymous]\<rparr>,
                    \<lparr>attendees = None\<rparr>]"

definition people_response :: "error + people_body response" where
  "people_response =
     Inr \<lparr>ok = True,
          json = Inr \<lparr>connections = Some [person_alice, person_no_email],
                       otherContacts = Some [person_alice_other, person_nameless]\<rparr>\<rparr>"

definition events_response :: "error + events_body response" where
  "events_response = Inr \<lparr>ok = True, json = Inr \<lparr>items = Some sample_events\<rparr>\<rparr>"

definition search_response :: "error + search_body response" where
  "search_response =
     Inr \<lparr>ok = True,
          json = Inr \<lparr>results = Some (map (\<lambda>p. \<lparr>person = Some p\<rparr>) [person_nameless])\<rparr>\<rparr>"

text \<open>25 hours after the time 0, with every dependency answering.\<close>

definition sample_env :: env where
  "sample_env =
     \<lparr>storage_get_error = None, storage_set_error = None, auth = Inr ''token'',
      people_fetch = (\<lambda>u. people_response), events_fetch = events_response,
      search_fetch = (\<lambda>q. search_response),
      now_check = 90000000, now_store = 90000007\<rparr>"

text \<open>One hour after the time 0.\<close>

definition hour_env :: env where
  "hour_env = sample_env\<lparr>now_check := 3600000, now_store := 3600007\<rparr>"

definition sample_cache :: ContactsCache where
  "sample_cache = \<lparr>data = [bob_held], timestamp = 0\<rparr>"

definition sample_world :: world where
  "sample_world = \<lparr>cache = Some sample_cache, log = []\<rparr>"

text \<open>All three sources fail: a rejected fetch, a status that is not a success, a missing list.\<close>

definition failing_env :: env where
  "failing_env =
     sample_env\<lparr>people_fetch := (\<lambda>u. if u = ConnectionsUrl then Inl NetworkError
                                       else Inr \<lparr>ok = False, json = Inl SyntaxError\<rparr>),
                 events_fetch := Inr \<lparr>ok = True, json = Inr \<lparr>items = None\<rparr>\<rparr>\<rparr>"

text \<open>The read of the storage rejects.\<close>

definition storage_down_env :: env where
  "storage_down_env = sample_env\<lparr>storage_get_error := Some StorageError\<rparr>"


text \<open>The calendar fetch rejects; everything else as in \<open>sample_env\<close>.\<close>

definition attendees_down_env :: env where
  "attendees_down_env = sample_env\<lparr>events_fetch := Inl NetworkError\<rparr>"

text \<open>One hour after the write of \<open>sample_env\<close> and of \<open>failing_env\<close>.\<close>

definition later_env :: env where
  "later_env = sample_env\<lparr>now_check := 93600007, now_store := 93600009\<rparr>"

section \<open>Properties of the map\<close>

lemma map_set_keys:
  "map fst (map_set m k v) = (if k \<in> set (map fst m) then map fst m else map fst m @ [k])"
  by (induction m) auto

lemma map_set_distinct:
  "distinct (map fst m) \<Longrightarrow> distinct (map fst (map_set m k v))"
  by (simp add: map_set_keys)

lemma map_set_map_of:
  "map_of (map_set m k v) = (map_of m)(k \<mapsto> v)"
  by (induction m) (auto simp: fun_eq_iff)

lemma map_set_keyed:
  "keyed_by_email m \<Longrightarrow> keyed_by_email (map_set m (email c) c)"
  by (induction m) (auto simp: keyed_by_email_def)

lemma keyed_Nil: "keyed_by_email []"
  by (simp add: keyed_by_email_def)

lemma set_all_Nil: "set_all [] m = m"
  by (simp add: set_all_def)

lemma set_all_Cons: "set_all (c # cs) m = set_all cs (map_set m (email c) c)"
  by (simp add: set_all_def)

lemma set_absent_Nil: "set_absent [] m = m"
  by (simp add: set_absent_def)

lemma set_absent_Cons:
  "set_absent (c # cs) m =
     set_absent cs (if \<not> map_has m (email c) then map_set m (email c) c else m)"
  by (simp add: set_absent_def)

lemma set_all_distinct:
  "distinct (map fst m) \<Longrightarrow> distinct (map fst (set_all cs m))"
  by (induction cs arbitrary: m) (simp_all add: set_all_Nil set_all_Cons map_set_distinct)

lemma set_absent_distinct:
  "distinct (map fst m) \<Longrightarrow> distinct (map fst (set_absent cs m))"
  by (induction cs arbitrary: m)
    (simp_all add: set_absent_Nil set_absent_Cons map_set_distinct)

lemma set_all_keyed:
  "keyed_by_email m \<Longrightarrow> keyed_by_email (set_all cs m)"
  by (induction cs arbitrary: m) (simp_all add: set_all_Nil set_all_Cons map_set_keyed)

lemma set_absent_keyed:
  "keyed_by_email m \<Longrightarrow> keyed_by_email (set_absent cs m)"
  by (induction cs arbitrary: m)
    (simp_all add: set_absent_Nil set_absent_Cons map_set_keyed)

lemma find_app:
  "find P (xs @ ys) = (case find P xs of Some x \<Rightarrow> Some x | None \<Rightarrow> find P ys)"
  by (induction xs) simp_all

lemma set_all_map_of:
  "map_of (set_all cs m) e =
     (case entry_for e (rev cs) of Some c \<Rightarrow> Some c | None \<Rightarrow> map_of m e)"
proof (induction cs arbitrary: m)
  case Nil
  show ?case by (simp add: set_all_Nil entry_for_def)
next
  case (Cons c cs)
  show ?case
    by (simp add: set_all_Cons Cons.IH map_set_map_of entry_for_def find_app
        split: option.splits)
qed

lemma map_has_map_of:
  "map_has m k \<longleftrightarrow> map_of m k \<noteq> None"
  by (simp add: map_has_def map_of_eq_None_iff)

lemma set_absent_map_of:
  "map_of (set_absent cs m) e =
     (case map_of m e of Some c \<Rightarrow> Some c | None \<Rightarrow> entry_for e cs)"
proof (induction cs arbitrary: m)
  case Nil
  show ?case by (simp add: set_absent_Nil entry_for_def split: option.splits)
next
  case (Cons c cs)
  show ?case
    by (auto simp: set_absent_Cons Cons.IH map_set_map_of map_has_map_of entry_for_def
        split: option.splits)
qed

lemma keyed_values_emails:
  "keyed_by_email m \<Longrightarrow> map email (map_values m) = map fst m"
  by (induction m) (auto simp: keyed_by_email_def map_values_def)

lemma keyed_entry_for:
  "keyed_by_email m \<Longrightarrow> entry_for e (map_values m) = map_of m e"
  by (induction m) (auto simp: keyed_by_email_def map_values_def entry_for_def)

lemma merge_map_keyed:
  "keyed_by_email (set_absent s3 (set_absent s2 (set_all s1 [])))"
  by (simp add: set_absent_keyed set_all_keyed keyed_Nil)

lemma merge_map_distinct:
  "distinct (map fst (set_absent s3 (set_absent s2 (set_all s1 []))))"
  by (simp add: set_absent_distinct set_all_distinct)

lemma entry_for_member:
  "distinct (map email cs) \<Longrightarrow> c \<in> set cs \<longleftrightarrow> entry_for (email c) cs = Some c"
proof (induction cs)
  case Nil
  show ?case by (simp add: entry_for_def)
next
  case (Cons x cs)
  from Cons.prems have d: "distinct (map email cs)" and n: "email x \<notin> email ` set cs"
    by simp_all
  show ?case
  proof (cases "email x = email c")
    case True
    with n have "c \<notin> set cs" by (metis imageI)
    with True show ?thesis by (auto simp: entry_for_def)
  next
    case False
    then have "x \<noteq> c" by auto
    with False Cons.IH [OF d] show ?thesis by (simp add: entry_for_def)
  qed
qed

lemma merge_values_distinct: "distinct (map email (mergeContacts s1 s2 s3))"
  unfolding mergeContacts_def
  by (simp add: keyed_values_emails [OF merge_map_keyed] merge_map_distinct)

section \<open>The merge policy\<close>

text \<open>
  C1. In the merged list the entry for an email is the one of the highest-priority source
  that has the email: the entry of the connections if they carry the email (the last
  such entry, since every connection is written unconditionally), otherwise the first
  entry of the other contacts with that email, otherwise the first entry of the recent
  attendees with that email, and no entry when no source has the email. That entry is
  the only contact of the merged list with the email: a contact is in the merged list
  exactly when it is the entry for its own email, so a contact of the second or third
  source whose email is already present is not inserted.
\<close>

theorem merge_priority:
  "entry_for e (mergeContacts s1 s2 s3) =
     (case entry_for e (rev s1) of
        Some c \<Rightarrow> Some c
      | None \<Rightarrow> (case entry_for e s2 of Some c \<Rightarrow> Some c | None \<Rightarrow> entry_for e s3)) \<and>
   (c \<in> set (mergeContacts s1 s2 s3) \<longleftrightarrow>
      entry_for (email c) (mergeContacts s1 s2 s3) = Some c)"
proof
  show "entry_for e (mergeContacts s1 s2 s3) =
     (case entry_for e (rev s1) of
        Some c \<Rightarrow> Some c
      | None \<Rightarrow> (case entry_for e s2 of Some c \<Rightarrow> Some c | None \<Rightarrow> entry_for e s3))"
    unfolding mergeContacts_def
    by (simp add: keyed_entry_for [OF merge_map_keyed] set_absent_map_of set_all_map_of
        split: option.splits)
  show "c \<in> set (mergeContacts s1 s2 s3) \<longleftrightarrow>
      entry_for (email c) (mergeContacts s1 s2 s3) = Some c"
    by (rule entry_for_member [OF merge_values_distinct])
qed

text \<open>
  C2. No two entries of a merged list share an email, whatever the three source lists are.
\<close>

theorem merge_emails_distinct:
  "distinct (map email (mergeContacts s1 s2 s3))"
  unfolding mergeContacts_def
  by (simp add: keyed_values_emails [OF merge_map_keyed] merge_map_distinct)

section \<open>The cache policy and the failures of the sources\<close>

lemma fetchAllContacts_eq:
  "fetchAllContacts env token w =
     (merged_result env,
      w\<lparr>log := log w @ [Fetch ConnectionsUrl token, Fetch OtherContactsUrl token,
                          Fetch EventsUrl token]\<rparr>)"
  by (simp add: fetchAllContacts_def fetchConnections_def fetchOtherContacts_def
      fetchRecentAttendees_def fetchPeople_def logged_def merged_result_def
      connections_result_def otherContacts_result_def recentAttendees_result_def)

lemma getContacts_network:
  "takes_network_path env forceRefresh w \<Longrightarrow>
     getContacts env forceRefresh w = getContacts_refresh env (after_read forceRefresh w)"
  by (auto simp: takes_network_path_def getContacts_def after_read_def storage_get_def
      split: option.splits)

lemma getContacts_try_auth:
  "auth env = Inr token \<Longrightarrow>
     getContacts_try env w =
       (case storage_set_error env of
          Some e \<Rightarrow>
            (Inl e, w\<lparr>log := log w @ [AuthRequest, Fetch ConnectionsUrl token,
                        Fetch OtherContactsUrl token, Fetch EventsUrl token, StorageSet]\<rparr>)
        | None \<Rightarrow>
            (Inr (merged_result env),
             w\<lparr>cache := Some \<lparr>data = merged_result env, timestamp = now_store env\<rparr>,
               log := log w @ [AuthRequest, Fetch ConnectionsUrl token,
                        Fetch OtherContactsUrl token, Fetch EventsUrl token, StorageSet]\<rparr>))"
  by (simp add: getContacts_try_def getAuthToken_def fetchAllContacts_eq storage_set_def
      logged_def split: option.splits)

lemma getContacts_refresh_success:
  "auth env = Inr token \<Longrightarrow> storage_set_error env = None \<Longrightarrow>
     getContacts_refresh env w =
       (Inr (merged_result env),
        w\<lparr>cache := Some \<lparr>data = merged_result env, timestamp = now_store env\<rparr>,
          log := log w @ [AuthRequest, Fetch ConnectionsUrl token,
                   Fetch OtherContactsUrl token, Fetch EventsUrl token, StorageSet]\<rparr>)"
  by (simp add: getContacts_refresh_def getContacts_try_auth)

lemma getContacts_refresh_fetches:
  "auth env = Inr token \<Longrightarrow>
     log (snd (getContacts_refresh env w)) =
       log w @ [AuthRequest, Fetch ConnectionsUrl token,
                   Fetch OtherContactsUrl token, Fetch EventsUrl token, StorageSet]"
  by (simp add: getContacts_refresh_def getContacts_try_auth split: option.splits)

lemma getContacts_cached:
  "storage_get_error env = None \<Longrightarrow> cache w = Some c \<Longrightarrow>
   now_check env - timestamp c < CACHE_DURATION \<Longrightarrow>
     getContacts env False w = (Inr (data c), logged StorageGet w)"
  by (simp add: getContacts_def storage_get_def)

text \<open>
  C3. When the refresh is not forced and the envelope read from the storage is younger
  than 24 hours, \<open>getContacts\<close> returns its contact list, and the only call to the outside
  is the read of the storage: no fetch. When the refresh is forced, or the envelope is
  absent or at least 24 hours old, and the credential is obtained, the three fetches are
  issued; and when the write to the storage succeeds as well, the merged list is returned
  and the storage holds a new envelope with the merged list and the current time.
\<close>

theorem getContacts_cache_policy:
  "(storage_get_error env = None \<and> cache w = Some c \<and>
    now_check env - timestamp c < CACHE_DURATION \<longrightarrow>
      getContacts env False w = (Inr (data c), logged StorageGet w) \<and>
      filter is_network (log (logged StorageGet w)) = filter is_network (log w)) \<and>
   (takes_network_path env forceRefresh w \<and> auth env = Inr token \<longrightarrow>
      log (snd (getContacts env forceRefresh w)) =
        log (after_read forceRefresh w) @
          [AuthRequest, Fetch ConnectionsUrl token, Fetch OtherContactsUrl token,
           Fetch EventsUrl token, StorageSet]) \<and>
   (takes_network_path env forceRefresh w \<and> auth env = Inr token \<and>
    storage_set_error env = None \<longrightarrow>
      fst (getContacts env forceRefresh w) = Inr (merged_result env) \<and>
      cache (snd (getContacts env forceRefresh w)) =
        Some \<lparr>data = merged_result env, timestamp = now_store env\<rparr>)"
proof -
  have fast: "storage_get_error env = None \<and> cache w = Some c \<and>
    now_check env - timestamp c < CACHE_DURATION \<longrightarrow>
      getContacts env False w = (Inr (data c), logged StorageGet w) \<and>
      filter is_network (log (logged StorageGet w)) = filter is_network (log w)"
    by (simp add: getContacts_cached logged_def is_network_def)
  have issued: "takes_network_path env forceRefresh w \<and> auth env = Inr token \<longrightarrow>
      log (snd (getContacts env forceRefresh w)) =
        log (after_read forceRefresh w) @
          [AuthRequest, Fetch ConnectionsUrl token, Fetch OtherContactsUrl token,
           Fetch EventsUrl token, StorageSet]"
    by (simp add: getContacts_network getContacts_refresh_fetches)
  have stored: "takes_network_path env forceRefresh w \<and> auth env = Inr token \<and>
    storage_set_error env = None \<longrightarrow>
      fst (getContacts env forceRefresh w) = Inr (merged_result env) \<and>
      cache (snd (getContacts env forceRefresh w)) =
        Some \<lparr>data = merged_result env, timestamp = now_store env\<rparr>"
    by (simp add: getContacts_network getContacts_refresh_success)
  from fast issued stored show ?thesis by (intro conjI)
qed

text \<open>
  C8. For a query shorter than 2 characters, the empty one included, \<open>searchContacts\<close>
  returns the empty list and leaves the state as it was: no credential request and no
  fetch is logged.
\<close>

theorem searchContacts_short_query:
  "length query < 2 \<Longrightarrow> searchContacts env query w = (Inr [], w)"
  by (simp add: searchContacts_def)

lemma catch_people_failed:
  "people_failed isOther res \<Longrightarrow> catch_empty (fetchPeople_try res isOther) = []"
  by (auto simp: people_failed_def catch_empty_def fetchPeople_try_def
      split: sum.splits option.splits if_splits)

lemma catch_events_failed:
  "events_failed res \<Longrightarrow> catch_empty (fetchRecentAttendees_try res) = []"
  by (auto simp: events_failed_def catch_empty_def fetchRecentAttendees_try_def
      split: sum.splits option.splits if_splits)

text \<open>
  C5. On the network path with the credential obtained and the storage written, a source
  whose fetch fails contributes the empty list, and \<open>getContacts\<close> returns the merge of
  that empty list with what the other two sources return, each of which depends on the
  outcome of its own fetch only.
\<close>

theorem source_failure_isolated:
  assumes "takes_network_path env forceRefresh w"
    and "auth env = Inr token"
    and "storage_set_error env = None"
  shows "(people_failed False (people_fetch env ConnectionsUrl) \<longrightarrow>
            fst (getContacts env forceRefresh w) =
              Inr (mergeContacts [] (otherContacts_result env) (recentAttendees_result env))) \<and>
         (people_failed True (people_fetch env OtherContactsUrl) \<longrightarrow>
            fst (getContacts env forceRefresh w) =
              Inr (mergeContacts (connections_result env) [] (recentAttendees_result env))) \<and>
         (events_failed (events_fetch env) \<longrightarrow>
            fst (getContacts env forceRefresh w) =
              Inr (mergeContacts (connections_result env) (otherContacts_result env) []))"
proof -
  have r: "fst (getContacts env forceRefresh w) = Inr (merged_result env)"
    using assms by (simp add: getContacts_network getContacts_refresh_success)
  show ?thesis
    unfolding r merged_result_def
    by (simp add: connections_result_def otherContacts_result_def recentAttendees_result_def
        catch_people_failed catch_events_failed)
qed

text \<open>
  C10. On the network path with the credential obtained, when all three sources fail and
  the write to the storage succeeds, \<open>getContacts\<close> returns the empty list and the storage
  holds the envelope of the empty list with the current time; a later call without forced
  refresh, less than 24 hours after that time, returns the empty list after reading the
  storage only.
\<close>

theorem total_failure_cached:
  assumes "takes_network_path env forceRefresh w"
    and "auth env = Inr token"
    and "storage_set_error env = None"
    and "people_failed False (people_fetch env ConnectionsUrl)"
    and "people_failed True (people_fetch env OtherContactsUrl)"
    and "events_failed (events_fetch env)"
    and "storage_get_error env2 = None"
    and "now_check env2 - now_store env < CACHE_DURATION"
  shows "fst (getContacts env forceRefresh w) = Inr [] \<and>
         cache (snd (getContacts env forceRefresh w)) =
           Some \<lparr>data = [], timestamp = now_store env\<rparr> \<and>
         getContacts env2 False (snd (getContacts env forceRefresh w)) =
           (Inr [], logged StorageGet (snd (getContacts env forceRefresh w)))"
proof -
  have m: "merged_result env = []"
    using assms(4-6)
    by (simp add: merged_result_def connections_result_def otherContacts_result_def
        recentAttendees_result_def catch_people_failed catch_events_failed
        mergeContacts_def set_all_Nil set_absent_Nil map_values_def)
  have r: "fst (getContacts env forceRefresh w) = Inr []"
    using assms(1-3) m by (simp add: getContacts_network getContacts_refresh_success)
  have c: "cache (snd (getContacts env forceRefresh w)) =
           Some \<lparr>data = [], timestamp = now_store env\<rparr>"
    using assms(1-3) m by (simp add: getContacts_network getContacts_refresh_success)
  have "getContacts env2 False (snd (getContacts env forceRefresh w)) =
           (Inr (data \<lparr>data = [], timestamp = now_store env\<rparr>), logged StorageGet (snd (getContacts env forceRefresh w)))"
    using assms(7,8) c by (intro getContacts_cached) simp_all
  with r c show ?thesis by simp
qed

section \<open>The recent attendees\<close>

lemma flag_iff: "flag b \<longleftrightarrow> b = Some True"
  by (cases b) (auto simp: flag_def)

lemma map_set_dom: "fst ` set (map_set m k v) = insert k (fst ` set m)"
  by (induction m) auto

lemma add_attendee_keys:
  "fst ` set (add_attendee a m) = fst ` set m \<union> {e. eligible a e}"
  by (auto simp: add_attendee_def eligible_def flag_iff map_has_def map_set_dom
      split: option.splits)

lemma fold_add_attendee_keys:
  "fst ` set (fold add_attendee atts m) =
     fst ` set m \<union> {e. \<exists>a\<in>set atts. eligible a e}"
proof (induction atts arbitrary: m)
  case Nil
  show ?case by simp
next
  case (Cons a atts)
  have "fst ` set (fold add_attendee (a # atts) m) =
          fst ` set (add_attendee a m) \<union> {e. \<exists>a\<in>set atts. eligible a e}"
    by (simp add: Cons.IH)
  also have "\<dots> = fst ` set m \<union> {e. \<exists>b\<in>set (a # atts). eligible b e}"
    unfolding add_attendee_keys by auto
  finally show ?case .
qed

lemma add_event_keys:
  "fst ` set (add_event ev m) =
     fst ` set m \<union> {e. \<exists>atts. attendees ev = Some atts \<and> (\<exists>a\<in>set atts. eligible a e)}"
proof (cases "attendees ev")
  case None
  then show ?thesis by (simp add: add_event_def)
next
  case (Some atts)
  then show ?thesis by (simp add: add_event_def fold_add_attendee_keys)
qed

lemma fold_add_event_keys:
  "fst ` set (fold add_event its m) =
     fst ` set m \<union>
     {e. \<exists>ev\<in>set its. \<exists>atts. attendees ev = Some atts \<and> (\<exists>a\<in>set atts. eligible a e)}"
proof (induction its arbitrary: m)
  case Nil
  show ?case by simp
next
  case (Cons ev its)
  have "fst ` set (fold add_event (ev # its) m) =
          fst ` set (add_event ev m) \<union>
          {e. \<exists>ev\<in>set its. \<exists>atts. attendees ev = Some atts \<and> (\<exists>a\<in>set atts. eligible a e)}"
    by (simp add: Cons.IH)
  also have "\<dots> = fst ` set m \<union>
     {e. \<exists>ev\<in>set (ev # its). \<exists>atts. attendees ev = Some atts \<and> (\<exists>a\<in>set atts. eligible a e)}"
    unfolding add_event_keys by auto
  finally show ?case .
qed

lemma add_attendee_keyed:
  "keyed_by_email m \<Longrightarrow> keyed_by_email (add_attendee a m)"
  using map_set_keyed [of m "\<lparr>cid = e, name = n, email = e, photoUrl = None, lastContacted = None\<rparr>" for e n]
  by (auto simp: add_attendee_def split: option.splits)

lemma fold_add_attendee_keyed:
  "keyed_by_email m \<Longrightarrow> keyed_by_email (fold add_attendee atts m)"
  by (induction atts arbitrary: m) (simp_all add: add_attendee_keyed)

lemma add_event_keyed:
  "keyed_by_email m \<Longrightarrow> keyed_by_email (add_event ev m)"
  by (simp add: add_event_def fold_add_attendee_keyed split: option.splits)

lemma fold_add_event_keyed:
  "keyed_by_email m \<Longrightarrow> keyed_by_email (fold add_event its m)"
  by (induction its arbitrary: m) (simp_all add: add_event_keyed)

lemma recent_result_ok:
  "events_fetch env = Inr r \<Longrightarrow> ok r \<Longrightarrow> json r = Inr d \<Longrightarrow> items d = Some its \<Longrightarrow>
     recentAttendees_result env = map_values (fold add_event its [])"
  by (simp add: recentAttendees_result_def fetchRecentAttendees_try_def catch_empty_def)

text \<open>
  C7. When the calendar answers with a list of events, the emails of the recent-attendees
  contact list are exactly the emails of the attendees that have a non-empty email and
  neither \<open>self\<close> nor \<open>resource\<close> set to true: an attendee with one of the flags, or
  without an email, contributes nothing, whatever event it stands in.
\<close>

theorem recent_attendees_filter:
  assumes "events_fetch env = Inr r" and "ok r" and "json r = Inr d" and "items d = Some its"
  shows "set (map email (recentAttendees_result env)) =
           {e. \<exists>ev\<in>set its. \<exists>atts. attendees ev = Some atts \<and>
                 (\<exists>a\<in>set atts. att_email a = Some e \<and> e \<noteq> [] \<and>
                    att_self a \<noteq> Some True \<and> att_resource a \<noteq> Some True)}"
proof -
  have k: "keyed_by_email (fold add_event its [])"
    by (simp add: fold_add_event_keyed keyed_Nil)
  show ?thesis
    unfolding recent_result_ok [OF assms] keyed_values_emails [OF k]
    by (simp add: fold_add_event_keys eligible_def)
qed

lemma or_string_rule:
  "or_string (att_displayName a) (before_at e) =
     (case att_displayName a of None \<Rightarrow> before_at e | Some d \<Rightarrow> if d = [] then before_at e else d)"
  by (simp add: or_string_def split: option.splits)

lemma map_set_values:
  "set (map snd (map_set m k v)) \<subseteq> insert v (set (map snd m))"
  by (induction m) auto

lemma add_attendee_cases:
  "add_attendee a m = m \<or>
   (\<exists>e. eligible a e \<and> add_attendee a m = map_set m e (attendee_rule a e))"
  by (cases "att_email a")
    (simp_all add: add_attendee_def eligible_def attendee_rule_def flag_iff or_string_rule)

lemma add_attendee_values:
  assumes "c \<in> snd ` set (add_attendee a m)"
  shows "c \<in> snd ` set m \<or> (\<exists>e. eligible a e \<and> c = attendee_rule a e)"
proof -
  from add_attendee_cases [of a m] show ?thesis
  proof
    assume "add_attendee a m = m"
    with assms show ?thesis by simp
  next
    assume "\<exists>e. eligible a e \<and> add_attendee a m = map_set m e (attendee_rule a e)"
    then obtain e where e: "eligible a e" "add_attendee a m = map_set m e (attendee_rule a e)"
      by blast
    from assms e(2) have "c \<in> insert (attendee_rule a e) (snd ` set m)"
      using map_set_values [of m e "attendee_rule a e"] by auto
    with e(1) show ?thesis by blast
  qed
qed

lemma fold_add_attendee_values:
  "c \<in> snd ` set (fold add_attendee atts m) \<Longrightarrow>
     c \<in> snd ` set m \<or> (\<exists>a\<in>set atts. \<exists>e. eligible a e \<and> c = attendee_rule a e)"
proof (induction atts arbitrary: m)
  case Nil
  then show ?case by simp
next
  case (Cons a atts)
  from Cons.prems have "c \<in> snd ` set (fold add_attendee atts (add_attendee a m))"
    by simp
  from Cons.IH [OF this] show ?case
  proof
    assume "c \<in> snd ` set (add_attendee a m)"
    from add_attendee_values [OF this] show ?thesis by auto
  next
    assume "\<exists>a\<in>set atts. \<exists>e. eligible a e \<and> c = attendee_rule a e"
    then show ?thesis by auto
  qed
qed

lemma from_attendee_Cons:
  "from_attendee (ev # its) c \<longleftrightarrow>
     (\<exists>atts. attendees ev = Some atts \<and> (\<exists>a\<in>set atts. \<exists>e. eligible a e \<and> c = attendee_rule a e))
     \<or> from_attendee its c"
  by (auto simp: from_attendee_def)

lemma add_event_values:
  assumes "c \<in> snd ` set (add_event ev m)"
  shows "c \<in> snd ` set m \<or>
     (\<exists>atts. attendees ev = Some atts \<and> (\<exists>a\<in>set atts. \<exists>e. eligible a e \<and> c = attendee_rule a e))"
proof (cases "attendees ev")
  case None
  with assms show ?thesis by (simp add: add_event_def)
next
  case (Some atts)
  with assms have "c \<in> snd ` set (fold add_attendee atts m)"
    by (simp add: add_event_def)
  from fold_add_attendee_values [OF this] Some show ?thesis by simp
qed

lemma fold_add_event_values:
  "c \<in> snd ` set (fold add_event its m) \<Longrightarrow> c \<in> snd ` set m \<or> from_attendee its c"
proof (induction its arbitrary: m)
  case Nil
  then show ?case by simp
next
  case (Cons ev its)
  from Cons.prems have "c \<in> snd ` set (fold add_event its (add_event ev m))"
    by simp
  from Cons.IH [OF this] show ?case
  proof
    assume "c \<in> snd ` set (add_event ev m)"
    from add_event_values [OF this] show ?thesis
      unfolding from_attendee_Cons by blast
  next
    assume "from_attendee its c"
    then show ?thesis unfolding from_attendee_Cons by blast
  qed
qed

section \<open>The mapping of an entry\<close>

lemma personToContact_shared: "personToContact item = person_rule item"
  by (auto simp: personToContact_def person_rule_def shared_rule_def available_def
      or_string_def js_or_def truthy_def Let_def split: option.splits)

lemma filter_null_map: "filter_null (map f xs) = List.map_filter f xs"
  by (induction xs) (simp_all add: filter_null_def List.map_filter_def)

lemma map_results_all:
  "map_results (map (\<lambda>p. \<lparr>person = Some p\<rparr>) ps) = Inr (map personToContact ps)"
  by (induction ps) simp_all

section \<open>The merge of search results\<close>

lemma push_new_eq:
  "push_new combined r =
     (if email r \<in> set (map email combined) then combined else combined @ [r])"
proof -
  have "list_ex (\<lambda>c. email c = email r) combined \<longleftrightarrow> email r \<in> set (map email combined)"
    by (induction combined) auto
  then show ?thesis by (simp add: push_new_def)
qed

lemma foldl_push_new:
  "foldl push_new prev rs = prev @ first_new (map email prev) rs"
  by (induction rs arbitrary: prev) (simp_all add: push_new_eq)

text \<open>
  C9 (as amended). The combined list is the held list, unchanged and in its order,
  followed by the search results, in their order, whose email is neither in the held list
  nor carried by an earlier search result of the same batch.
\<close>

theorem search_merge_additive:
  "mergeSearchResults prev rs = prev @ first_new (map email prev) rs"
  by (cases rs) (simp_all add: mergeSearchResults_def foldl_push_new del: foldl_Cons)

text \<open>
  C9 as stated fails: of two search results with the same new email only the first is
  appended, although the email of the second is not in the held list either.
\<close>

theorem search_merge_counterexample:
  "mergeSearchResults [bob_held] [alice_search, alice_search_twin] = [bob_held, alice_search] \<and>
   additive_merge [bob_held] [alice_search, alice_search_twin] =
     [bob_held, alice_search, alice_search_twin] \<and>
   mergeSearchResults [bob_held] [alice_search, alice_search_twin] \<noteq>
     additive_merge [bob_held] [alice_search, alice_search_twin]"
  by (simp add: mergeSearchResults_def push_new_def additive_merge_def bob_held_def
      alice_search_def alice_search_twin_def)

theorem search_merge_additive_witness:
  "mergeSearchResults [bob_held] [alice_search, bob_held, alice_search_twin] =
     [bob_held, alice_search]"
proof -
  have "mergeSearchResults [bob_held] [alice_search, bob_held, alice_search_twin] =
          [bob_held] @ first_new (map email [bob_held]) [alice_search, bob_held, alice_search_twin]"
    by (rule search_merge_additive)
  also have "\<dots> = [bob_held, alice_search]"
    by (simp add: bob_held_def alice_search_def alice_search_twin_def)
  finally show ?thesis .
qed

text \<open>
  When the search results carry pairwise different emails, the merge is the one the
  specification words: the held list, then the results whose email it does not have.
\<close>

lemma first_new_filter:
  "distinct (map email rs) \<Longrightarrow> first_new seen rs = filter (\<lambda>r. email r \<notin> set seen) rs"
proof (induction rs arbitrary: seen)
  case Nil
  show ?case by simp
next
  case (Cons r rs)
  from Cons.prems have d: "distinct (map email rs)"
    by simp
  from Cons.prems have n: "\<forall>x\<in>set rs. email x \<noteq> email r"
    by (auto simp: image_iff)
  have "filter (\<lambda>x. email x \<notin> set (seen @ [email r])) rs = filter (\<lambda>x. email x \<notin> set seen) rs"
    using n by (intro filter_cong) simp_all
  then show ?case by (simp add: Cons.IH [OF d])
qed

lemma mergeSearchResults_foldl: "mergeSearchResults prev rs = foldl push_new prev rs"
  by (cases rs) (simp_all add: mergeSearchResults_def)

lemma search_merge_distinct_results:
  assumes "distinct (map email rs)"
  shows "mergeSearchResults prev rs = additive_merge prev rs"
  unfolding mergeSearchResults_foldl foldl_push_new first_new_filter [OF assms] additive_merge_def
  by simp

section \<open>What the two operations can throw\<close>

lemma getContacts_storage_read_fails:
  "storage_get_error env = Some e \<Longrightarrow> getContacts env False w = (Inl e, logged StorageGet w)"
  by (simp add: getContacts_def storage_get_def)

lemma getContacts_refresh_total: "\<exists>cs. fst (getContacts_refresh env w) = Inr cs"
  by (cases "getContacts_try env w") (auto simp: getContacts_refresh_def split: sum.splits)

lemma getContacts_forced_total: "\<exists>cs. fst (getContacts env True w) = Inr cs"
  by (simp add: getContacts_def getContacts_refresh_total)

lemma getContacts_total_if_read:
  "storage_get_error env = None \<Longrightarrow> \<exists>cs. fst (getContacts env forceRefresh w) = Inr cs"
  by (auto simp: getContacts_def storage_get_def getContacts_refresh_total split: option.splits)

lemma searchContacts_total: "\<exists>cs. fst (searchContacts env query w) = Inr cs"
  by (cases "searchContacts_try env query w") (auto simp: searchContacts_def split: sum.splits)

lemma getContacts_throws_iff:
  "(\<exists>e. fst (getContacts env forceRefresh w) = Inl e) \<longleftrightarrow>
     (\<not> forceRefresh \<and> storage_get_error env \<noteq> None)"
proof (cases "\<not> forceRefresh \<and> storage_get_error env \<noteq> None")
  case True
  then show ?thesis by (auto simp: getContacts_storage_read_fails)
next
  case False
  then have "\<exists>cs. fst (getContacts env forceRefresh w) = Inr cs"
    using getContacts_forced_total [of env w] getContacts_total_if_read [of env forceRefresh w]
    by (cases forceRefresh) auto
  with False show ?thesis by auto
qed

section \<open>The model on the sample data\<close>

lemmas sample_defs = sample_env_def people_response_def events_response_def search_response_def
  sample_events_def person_alice_def person_alice_other_def person_nameless_def
  person_no_email_def att_bob_def att_me_def att_room_def att_anonymous_def

lemmas source_defs = connections_result_def otherContacts_result_def recentAttendees_result_def
  catch_empty_def fetchPeople_try_def fetchRecentAttendees_try_def filter_null_def
  List.map_filter_def personToContact_def first_displayName_def first_email_def
  first_photo_def first_of_def or_string_def js_or_def truthy_def flag_def
  add_event_def add_attendee_def map_has_def map_values_def before_at_def

lemma conn_sample: "connections_result sample_env = [alice_connection]"
  by (simp add: sample_defs source_defs alice_connection_def)

lemma other_sample: "otherContacts_result sample_env = [alice_other, carol]"
  by (simp add: sample_defs source_defs alice_other_def carol_def)

lemma recent_sample: "recentAttendees_result sample_env = [bob_held]"
  by (simp add: sample_defs source_defs bob_held_def)

lemma merged_sample: "merged_result sample_env = [alice_connection, carol, bob_held]"
  unfolding merged_result_def conn_sample other_sample recent_sample
  by (simp add: mergeContacts_def set_all_def set_absent_def map_has_def map_values_def
      alice_connection_def alice_other_def carol_def bob_held_def)

lemma conn_down: "connections_result attendees_down_env = [alice_connection]"
  by (simp add: attendees_down_env_def sample_defs source_defs alice_connection_def)

lemma other_down: "otherContacts_result attendees_down_env = [alice_other, carol]"
  by (simp add: attendees_down_env_def sample_defs source_defs alice_other_def carol_def)

section \<open>Instances of the theorems\<close>

theorem merge_priority_witness:
  "entry_for ''a@x.com'' (mergeContacts [alice_connection] [alice_other, carol] [bob_held]) =
     Some alice_connection \<and>
   alice_other \<notin> set (mergeContacts [alice_connection] [alice_other, carol] [bob_held]) \<and>
   alice_connection \<in> set (mergeContacts [alice_connection] [alice_other, carol] [bob_held])"
proof -
  note t = merge_priority [where ?s1.0 = "[alice_connection]" and ?s2.0 = "[alice_other, carol]"
      and ?s3.0 = "[bob_held]" and e = "''a@x.com''"]
  have e: "entry_for ''a@x.com'' (mergeContacts [alice_connection] [alice_other, carol] [bob_held]) =
     Some alice_connection"
    using t [where c = alice_connection] by (simp add: entry_for_def alice_connection_def)
  have m1: "email alice_other = ''a@x.com''" "email alice_connection = ''a@x.com''"
    "alice_connection \<noteq> alice_other"
    by (simp_all add: alice_other_def alice_connection_def)
  from t [where c = alice_other] e m1
  have "alice_other \<notin> set (mergeContacts [alice_connection] [alice_other, carol] [bob_held])"
    by simp
  moreover from t [where c = alice_connection] e m1
  have "alice_connection \<in> set (mergeContacts [alice_connection] [alice_other, carol] [bob_held])"
    by simp
  ultimately show ?thesis using e by simp
qed

theorem merge_emails_distinct_witness:
  "distinct (map email (mergeContacts [alice_connection, alice_other] [alice_other, carol] [bob_held, carol]))"
  by (rule merge_emails_distinct)

theorem getContacts_cache_policy_witness:
  "getContacts hour_env False sample_world = (Inr [bob_held], logged StorageGet sample_world) \<and>
   log (snd (getContacts sample_env False sample_world)) =
     [StorageGet, AuthRequest, Fetch ConnectionsUrl ''token'', Fetch OtherContactsUrl ''token'',
      Fetch EventsUrl ''token'', StorageSet] \<and>
   fst (getContacts sample_env False sample_world) = Inr [alice_connection, carol, bob_held] \<and>
   cache (snd (getContacts sample_env False sample_world)) =
     Some \<lparr>data = [alice_connection, carol, bob_held], timestamp = 90000007\<rparr>"
proof -
  have h1: "storage_get_error hour_env = None \<and> cache sample_world = Some sample_cache \<and>
      now_check hour_env - timestamp sample_cache < CACHE_DURATION"
    by (simp add: hour_env_def sample_env_def sample_world_def sample_cache_def
        CACHE_DURATION_def)
  have h2: "takes_network_path sample_env False sample_world"
    by (simp add: takes_network_path_def sample_env_def sample_world_def sample_cache_def
        CACHE_DURATION_def)
  have h3: "auth sample_env = Inr ''token''" "storage_set_error sample_env = None"
    "now_store sample_env = 90000007"
    by (simp_all add: sample_env_def)
  have l: "log (after_read False sample_world) = [StorageGet]"
    by (simp add: after_read_def logged_def sample_world_def)
  note p1 = getContacts_cache_policy [where env = hour_env and w = sample_world
      and c = sample_cache and forceRefresh = False and token = "''token''"]
  note p2 = getContacts_cache_policy [where env = sample_env and w = sample_world
      and c = sample_cache and forceRefresh = False and token = "''token''"]
  from p1 h1 have "getContacts hour_env False sample_world =
      (Inr (data sample_cache), logged StorageGet sample_world)"
    by blast
  moreover from p2 h2 h3 have "log (snd (getContacts sample_env False sample_world)) =
        log (after_read False sample_world) @
          [AuthRequest, Fetch ConnectionsUrl ''token'', Fetch OtherContactsUrl ''token'',
           Fetch EventsUrl ''token'', StorageSet]"
    by blast
  moreover from p2 h2 h3 have "fst (getContacts sample_env False sample_world) =
        Inr (merged_result sample_env) \<and>
      cache (snd (getContacts sample_env False sample_world)) =
        Some \<lparr>data = merged_result sample_env, timestamp = now_store sample_env\<rparr>"
    by blast
  ultimately show ?thesis
    by (simp add: l h3 merged_sample sample_cache_def)
qed

theorem searchContacts_short_query_witness:
  "length ''a'' < 2 \<and> searchContacts sample_env ''a'' sample_world = (Inr [], sample_world)"
proof -
  have h: "length ''a'' < 2" by simp
  from h searchContacts_short_query [OF h, of sample_env sample_world] show ?thesis by simp
qed

theorem source_failure_isolated_witness:
  "events_failed (events_fetch attendees_down_env) \<and>
   fst (getContacts attendees_down_env True sample_world) = Inr [alice_connection, carol]"
proof -
  have h1: "takes_network_path attendees_down_env True sample_world"
    by (simp add: takes_network_path_def)
  have h2: "auth attendees_down_env = Inr ''token''"
    by (simp add: attendees_down_env_def sample_env_def)
  have h3: "storage_set_error attendees_down_env = None"
    by (simp add: attendees_down_env_def sample_env_def)
  have f: "events_failed (events_fetch attendees_down_env)"
    by (simp add: events_failed_def attendees_down_env_def)
  from source_failure_isolated [OF h1 h2 h3] f
  have "fst (getContacts attendees_down_env True sample_world) =
      Inr (mergeContacts (connections_result attendees_down_env)
             (otherContacts_result attendees_down_env) [])"
    by blast
  also have "\<dots> = Inr [alice_connection, carol]"
    unfolding conn_down other_down
    by (simp add: mergeContacts_def set_all_def set_absent_def map_has_def map_values_def
        alice_connection_def alice_other_def carol_def)
  finally show ?thesis using f by simp
qed

theorem total_failure_cached_witness:
  "fst (getContacts failing_env False sample_world) = Inr [] \<and>
   cache (snd (getContacts failing_env False sample_world)) =
     Some \<lparr>data = [], timestamp = 90000007\<rparr> \<and>
   getContacts later_env False (snd (getContacts failing_env False sample_world)) =
     (Inr [], logged StorageGet (snd (getContacts failing_env False sample_world)))"
proof -
  have h1: "takes_network_path failing_env False sample_world"
    by (simp add: takes_network_path_def failing_env_def sample_env_def sample_world_def
        sample_cache_def CACHE_DURATION_def)
  have h2: "auth failing_env = Inr ''token''"
    by (simp add: failing_env_def sample_env_def)
  have h3: "storage_set_error failing_env = None"
    by (simp add: failing_env_def sample_env_def)
  have h4: "people_failed False (people_fetch failing_env ConnectionsUrl)"
    by (simp add: people_failed_def failing_env_def)
  have h5: "people_failed True (people_fetch failing_env OtherContactsUrl)"
    by (simp add: people_failed_def failing_env_def)
  have h6: "events_failed (events_fetch failing_env)"
    by (simp add: events_failed_def failing_env_def)
  have h7: "storage_get_error later_env = None"
    by (simp add: later_env_def sample_env_def)
  have h8: "now_check later_env - now_store failing_env < CACHE_DURATION"
    by (simp add: later_env_def failing_env_def sample_env_def CACHE_DURATION_def)
  have t: "now_store failing_env = 90000007"
    by (simp add: failing_env_def sample_env_def)
  from total_failure_cached [OF h1 h2 h3 h4 h5 h6 h7 h8] show ?thesis
    by (simp add: t)
qed

theorem recent_attendees_filter_witness:
  "set (map email (recentAttendees_result sample_env)) = {''bob@x.com''}"
proof -
  have h1: "events_fetch sample_env = Inr \<lparr>ok = True, json = Inr \<lparr>items = Some sample_events\<rparr>\<rparr>"
    by (simp add: sample_env_def events_response_def)
  have h2: "ok \<lparr>ok = True, json = Inr \<lparr>items = Some sample_events\<rparr>\<rparr>"
    by simp
  have h3: "json \<lparr>ok = True, json = Inr \<lparr>items = Some sample_events\<rparr>\<rparr> =
      Inr \<lparr>items = Some sample_events\<rparr>"
    by simp
  have h4: "items \<lparr>items = Some sample_events\<rparr> = Some sample_events"
    by simp
  have "set (map email (recentAttendees_result sample_env)) =
           {e. \<exists>ev\<in>set sample_events. \<exists>atts. attendees ev = Some atts \<and>
                 (\<exists>a\<in>set atts. att_email a = Some e \<and> e \<noteq> [] \<and>
                    att_self a \<noteq> Some True \<and> att_resource a \<noteq> Some True)}"
    by (rule recent_attendees_filter [OF h1 h2 h3 h4])
  also have "\<dots> = {''bob@x.com''}"
    by (auto simp: sample_events_def att_me_def att_bob_def att_room_def att_anonymous_def)
  finally show ?thesis .
qed

section \<open>The mapping rule of each source\<close>

lemma personToContact_eq: "personToContact = person_rule"
  by (rule ext) (rule personToContact_shared)

lemma people_result_ok:
  "res = Inr r \<Longrightarrow> ok r \<Longrightarrow> json r = Inr d \<Longrightarrow>
   (if isOther then otherContacts d else connections d) = Some l \<Longrightarrow>
     catch_empty (fetchPeople_try res isOther) = List.map_filter person_rule l"
  by (simp add: fetchPeople_try_def catch_empty_def filter_null_map personToContact_eq)

lemma search_result_ok:
  assumes "2 \<le> length query" and "auth env = Inr token" and "search_fetch env query = Inr r"
    and "ok r" and "json r = Inr d"
    and "results d = Some (map (\<lambda>p. \<lparr>person = Some p\<rparr>) ps)"
  shows "searchContacts env query w =
       (Inr (List.map_filter person_rule ps),
        w\<lparr>log := log w @ [AuthRequest, Fetch (SearchUrl query) token]\<rparr>)"
proof -
  from assms(1) have g: "\<not> (query = [] \<or> length query < 2)"
    by auto
  have 1: "searchContacts env query w =
      (case searchContacts_try env query w of
         (Inl e, w') \<Rightarrow> (Inr [], w')
       | (Inr cs, w') \<Rightarrow> (Inr cs, w'))"
    unfolding searchContacts_def using g by (rule if_not_P)
  have 2: "searchContacts_try env query w =
      (Inr (List.map_filter person_rule ps),
       w\<lparr>log := log w @ [AuthRequest, Fetch (SearchUrl query) token]\<rparr>)"
    using assms(2-6)
    by (simp add: searchContacts_try_def getAuthToken_def logged_def map_results_all
        filter_null_map personToContact_eq)
  show ?thesis unfolding 1 2 by simp
qed

lemma recent_result_from_attendee:
  assumes "events_fetch env = Inr r" and "ok r" and "json r = Inr d" and "items d = Some its"
    and "c \<in> set (recentAttendees_result env)"
  shows "from_attendee its c"
proof -
  from assms have "c \<in> snd ` set (fold add_event its [])"
    by (simp add: recent_result_ok [OF assms(1-4)] map_values_def)
  from fold_add_event_values [OF this] show ?thesis by simp
qed

text \<open>
  C6 (as amended). The shared mapping rule holds for every entry of the two People API
  sources (connections, other contacts) and of the search path: their contact lists are
  the entries mapped by the rule, those without a first email string dropped. The
  recent-attendees source follows a rule of its own: every contact of its list comes from
  an attendee with a non-empty email and neither flag set, has that email as email and as
  id, has as name the attendee's display name or else the text of the email before the
  first \<open>@\<close>, and has no photo.
\<close>

theorem shared_mapping_rule:
  "(people_fetch env ConnectionsUrl = Inr r1 \<and> ok r1 \<and> json r1 = Inr d1 \<and>
    connections d1 = Some l1 \<longrightarrow>
      connections_result env = List.map_filter person_rule l1) \<and>
   (people_fetch env OtherContactsUrl = Inr r2 \<and> ok r2 \<and> json r2 = Inr d2 \<and>
    otherContacts d2 = Some l2 \<longrightarrow>
      otherContacts_result env = List.map_filter person_rule l2) \<and>
   (2 \<le> length query \<and> auth env = Inr token \<and> search_fetch env query = Inr r3 \<and> ok r3 \<and>
    json r3 = Inr d3 \<and> results d3 = Some (map (\<lambda>p. \<lparr>person = Some p\<rparr>) ps) \<longrightarrow>
      fst (searchContacts env query w) = Inr (List.map_filter person_rule ps)) \<and>
   (events_fetch env = Inr r4 \<and> ok r4 \<and> json r4 = Inr d4 \<and> items d4 = Some its \<longrightarrow>
      (\<forall>c\<in>set (recentAttendees_result env). from_attendee its c))"
proof -
  have conn: "people_fetch env ConnectionsUrl = Inr r1 \<and> ok r1 \<and> json r1 = Inr d1 \<and>
    connections d1 = Some l1 \<longrightarrow>
      connections_result env = List.map_filter person_rule l1"
    unfolding connections_result_def by (simp add: people_result_ok)
  have other: "people_fetch env OtherContactsUrl = Inr r2 \<and> ok r2 \<and> json r2 = Inr d2 \<and>
    otherContacts d2 = Some l2 \<longrightarrow>
      otherContacts_result env = List.map_filter person_rule l2"
    unfolding otherContacts_result_def by (simp add: people_result_ok)
  have search: "2 \<le> length query \<and> auth env = Inr token \<and> search_fetch env query = Inr r3 \<and>
    ok r3 \<and> json r3 = Inr d3 \<and> results d3 = Some (map (\<lambda>p. \<lparr>person = Some p\<rparr>) ps) \<longrightarrow>
      fst (searchContacts env query w) = Inr (List.map_filter person_rule ps)"
    by (simp add: search_result_ok)
  have recent: "events_fetch env = Inr r4 \<and> ok r4 \<and> json r4 = Inr d4 \<and> items d4 = Some its \<longrightarrow>
      (\<forall>c\<in>set (recentAttendees_result env). from_attendee its c)"
    using recent_result_from_attendee [of env r4 d4 its] by blast
  from conn other search recent show ?thesis by (intro conjI)
qed

text \<open>
  C6 as stated fails at the third bulk source: an attendee \<open>bob@x.com\<close> without display
  name becomes a contact named \<open>bob\<close>, where the shared rule gives the name \<open>bob@x.com\<close>.
\<close>

theorem shared_mapping_rule_counterexample:
  "recentAttendees_result sample_env = [bob_held] \<and>
   name bob_held = ''bob'' \<and>
   map_option name (shared_rule (att_displayName att_bob) (att_email att_bob) None None) =
     Some ''bob@x.com''"
  by (simp add: sample_defs source_defs bob_held_def shared_rule_def available_def)

lemmas rule_defs = person_rule_def shared_rule_def available_def first_displayName_def
  first_email_def first_photo_def first_of_def List.map_filter_def

theorem shared_mapping_rule_witness:
  "connections_result sample_env = [alice_connection] \<and>
   otherContacts_result sample_env = [alice_other, carol] \<and>
   fst (searchContacts sample_env ''ca'' sample_world) = Inr [carol] \<and>
   from_attendee sample_events bob_held"
proof -
  have p: "people_fetch sample_env ConnectionsUrl =
      Inr \<lparr>ok = True, json = Inr \<lparr>connections = Some [person_alice, person_no_email],
                       otherContacts = Some [person_alice_other, person_nameless]\<rparr>\<rparr>"
    "people_fetch sample_env OtherContactsUrl =
      Inr \<lparr>ok = True, json = Inr \<lparr>connections = Some [person_alice, person_no_email],
                       otherContacts = Some [person_alice_other, person_nameless]\<rparr>\<rparr>"
    by (simp_all add: sample_env_def people_response_def)
  have s: "search_fetch sample_env ''ca'' =
      Inr \<lparr>ok = True,
           json = Inr \<lparr>results = Some (map (\<lambda>p. \<lparr>person = Some p\<rparr>) [person_nameless])\<rparr>\<rparr>"
    "auth sample_env = Inr ''token''"
    by (simp_all add: sample_env_def search_response_def)
  have e: "events_fetch sample_env = Inr \<lparr>ok = True, json = Inr \<lparr>items = Some sample_events\<rparr>\<rparr>"
    by (simp add: sample_env_def events_response_def)
  note t = shared_mapping_rule [where env = sample_env
      and ?r1.0 = "\<lparr>ok = True, json = Inr \<lparr>connections = Some [person_alice, person_no_email],
                       otherContacts = Some [person_alice_other, person_nameless]\<rparr>\<rparr>"
      and ?d1.0 = "\<lparr>connections = Some [person_alice, person_no_email],
                       otherContacts = Some [person_alice_other, person_nameless]\<rparr>"
      and ?l1.0 = "[person_alice, person_no_email]"
      and ?r2.0 = "\<lparr>ok = True, json = Inr \<lparr>connections = Some [person_alice, person_no_email],
                       otherContacts = Some [person_alice_other, person_nameless]\<rparr>\<rparr>"
      and ?d2.0 = "\<lparr>connections = Some [person_alice, person_no_email],
                       otherContacts = Some [person_alice_other, person_nameless]\<rparr>"
      and ?l2.0 = "[person_alice_other, person_nameless]"
      and query = "''ca''" and token = "''token''"
      and ?r3.0 = "\<lparr>ok = True,
           json = Inr \<lparr>results = Some (map (\<lambda>p. \<lparr>person = Some p\<rparr>) [person_nameless])\<rparr>\<rparr>"
      and ?d3.0 = "\<lparr>results = Some (map (\<lambda>p. \<lparr>person = Some p\<rparr>) [person_nameless])\<rparr>"
      and ps = "[person_nameless]" and w = sample_world
      and ?r4.0 = "\<lparr>ok = True, json = Inr \<lparr>items = Some sample_events\<rparr>\<rparr>"
      and ?d4.0 = "\<lparr>items = Some sample_events\<rparr>" and its = sample_events]
  from t p have "connections_result sample_env =
      List.map_filter person_rule [person_alice, person_no_email]"
    by simp
  moreover from t p have "otherContacts_result sample_env =
      List.map_filter person_rule [person_alice_other, person_nameless]"
    by simp
  moreover from t s have "fst (searchContacts sample_env ''ca'' sample_world) =
      Inr (List.map_filter person_rule [person_nameless])"
    by simp
  moreover from t e have "\<forall>c\<in>set (recentAttendees_result sample_env). from_attendee sample_events c"
    by simp
  then have "from_attendee sample_events bob_held"
    by (simp add: recent_sample)
  ultimately show ?thesis
    by (simp add: rule_defs person_alice_def person_no_email_def person_alice_other_def
        person_nameless_def alice_connection_def alice_other_def carol_def)
qed


section \<open>The rejection that \<open>getContacts\<close> does not catch\<close>

text \<open>
  C4. \<open>searchContacts\<close> never throws (\<open>searchContacts_total\<close>), and \<open>getContacts\<close> never
  throws once the storage has been read or the refresh is forced
  (\<open>getContacts_throws_iff\<close>). The claim fails at the read of the storage: it stands
  before the \<open>try\<close>, and when it rejects, \<open>getContacts\<close> rejects with the same error
  instead of returning the empty list.
\<close>

theorem storage_read_failure_propagates:
  "getContacts storage_down_env False sample_world =
     (Inl StorageError, logged StorageGet sample_world)"
  by (rule getContacts_storage_read_fails) (simp add: storage_down_env_def)

end
